theory Spec2Isabelle
  imports Main
begin

section \<open>Data model of \<open>master_health.py\<close>\<close>

text \<open>
  The checker reads cluster objects through two clients and turns them into status
  dictionaries. Only the attributes the checks read are kept. An attribute that the source
  guards with \<open>hasattr\<close> is an optional field, \<open>None\<close> standing for "attribute absent".
\<close>

record condition =
  cond_type :: string
  cond_status :: string
  cond_message :: string

record node =
  node_name :: string
  node_conditions :: "condition list"

record operator =
  operator_name :: string
  operator_conditions :: "condition list option"

record container_status =
  container_name :: string
  container_ready :: bool

record pod_state =
  phase :: string
  container_statuses :: "container_status list option"

record pod =
  pod_name :: string
  pod_status :: "pod_state option"

text \<open>
  The \<open>'status'\<close> entry of every result dictionary holds one of four string literals.
\<close>

datatype level = Healthy | Warning | Unhealthy | Error

text \<open>
  The per-entity dictionaries. All of them have \<open>name\<close>, \<open>status\<close> and \<open>issues\<close>; a node
  also has \<open>warnings\<close>, a control-plane pod also has \<open>namespace\<close>.
\<close>

record entity_status =
  name :: string
  status :: level
  issues :: "string list"

record node_status = entity_status +
  warnings :: "string list"

record component_status = entity_status +
  namespace :: string

text \<open>
  The dictionary returned by \<open>check_etcd_health\<close>: \<open>'status'\<close> and, depending on the
  branch, one of \<open>'error'\<close>, \<open>'issues'\<close>, \<open>'message'\<close>.
\<close>

record etcd_status =
  etcd_level :: level
  etcd_error :: "string option"
  etcd_issues :: "string list option"
  etcd_message :: "string option"

subsection \<open>Exceptions\<close>

text \<open>
  \<open>_get_paginated_pods\<close> has one handler for \<open>ApiException\<close> and one for every other
  exception, so the two are told apart. The string is what \<open>str(e)\<close> gives.
\<close>

datatype exn = ApiException string | OtherException string

fun str_exn :: "exn \<Rightarrow> string" where
  "str_exn (ApiException s) = s"
| "str_exn (OtherException s) = s"

subsection \<open>The outside world\<close>

text \<open>
  A call to the cluster may answer differently every time, so the remote side is a state
  \<open>'s\<close> that each call reads and advances. The process's own effects are the lines sent
  to \<open>console.print\<close> and the arguments of \<open>time.sleep\<close>, both in order.
\<close>

record 's world =
  server :: 's
  console :: "string list"
  slept :: "nat list"

definition console_print :: "string \<Rightarrow> 's world \<Rightarrow> 's world" where
  "console_print line w = w\<lparr>console := console w @ [line]\<rparr>"

definition time_sleep :: "nat \<Rightarrow> 's world \<Rightarrow> 's world" where
  "time_sleep n w = w\<lparr>slept := slept w @ [n]\<rparr>"

definition remote :: "('s \<Rightarrow> 'r \<times> 's) \<Rightarrow> 's world \<Rightarrow> 'r \<times> 's world" where
  "remote f w = (case f (server w) of (r, s') \<Rightarrow> (r, w\<lparr>server := s'\<rparr>))"

text \<open>
  A list call takes the keyword arguments \<open>limit\<close> and \<open>_continue\<close> and either raises or
  returns a page: its items and the \<open>metadata._continue\<close> token. The source tests the
  returned object itself for truth (\<open>if not pod_list\<close>), so a call may also return \<open>None\<close>.
\<close>

type_synonym token = string

record list_kwargs =
  limit :: "nat option"
  continue :: "token option"

record 'a page =
  items :: "'a list"
  metadata_continue :: "token option"

datatype 'a reply = Raises exn | Returns "'a page option"

type_synonym ('s, 'a) api_call = "list_kwargs \<Rightarrow> 's \<Rightarrow> 'a reply \<times> 's"

text \<open>Python truth of a continuation token: \<open>None\<close> and the empty string are false.\<close>

fun truthy :: "token option \<Rightarrow> bool" where
  "truthy None = False"
| "truthy (Some t) = (t \<noteq> [])"

text \<open>
  The clients the checker is built with: the dynamic client's \<open>get\<close> on nodes (by label
  selector) and on cluster operators (by optional field selector), which raise or return
  the \<open>items\<close> of the answer, and the core client's \<open>list_namespaced_pod\<close> (by namespace and
  optional label selector).
\<close>

record 's cluster =
  get_nodes :: "string \<Rightarrow> 's \<Rightarrow> (exn + node list) \<times> 's"
  get_cluster_operators :: "string option \<Rightarrow> 's \<Rightarrow> (exn + operator list) \<times> 's"
  list_namespaced_pod :: "string \<Rightarrow> string option \<Rightarrow> ('s, pod) api_call"

section \<open>Master nodes\<close>

text \<open>
  One iteration of the loop over \<open>node.status.conditions\<close>: the first branch records a
  node that is not ready, the second a pressure condition; both assign \<open>'status'\<close>.
\<close>

definition pressure_types :: "string list" where
  "pressure_types = [''DiskPressure'', ''MemoryPressure'', ''PIDPressure'']"

definition node_condition_step :: "node_status \<Rightarrow> condition \<Rightarrow> node_status" where
  "node_condition_step st c =
     (if cond_type c = ''Ready'' \<and> cond_status c \<noteq> ''True''
      then st\<lparr>status := Unhealthy,
              issues := issues st @ [''Node not ready: '' @ cond_message c]\<rparr>
      else if cond_type c \<in> set pressure_types \<and> cond_status c = ''True''
      then st\<lparr>status := Warning,
              warnings := warnings st @ [cond_type c @ '': '' @ cond_message c]\<rparr>
      else st)"

definition check_node :: "node \<Rightarrow> node_status" where
  "check_node n =
     foldl node_condition_step
       \<lparr>name = node_name n, status = Healthy, issues = [], warnings = []\<rparr>
       (node_conditions n)"

definition check_master_nodes :: "'s cluster \<Rightarrow> 's world \<Rightarrow> node_status list \<times> 's world" where
  "check_master_nodes c w =
     (case remote (get_nodes c ''node-role.kubernetes.io/master'') w of
        (Inl e, w1) \<Rightarrow>
          ([\<lparr>name = ''unknown'', status = Error, issues = [str_exn e], warnings = []\<rparr>],
           console_print (''[red]Error checking master nodes: '' @ str_exn e @ ''[/red]'') w1)
      | (Inr master_nodes, w1) \<Rightarrow>
          (let results = map check_node master_nodes
           in (results,
               if results = []
               then console_print ''[yellow]Warning: No master nodes found[/yellow]'' w1
               else w1)))"

section \<open>Critical operators\<close>

definition operator_condition_step :: "entity_status \<Rightarrow> condition \<Rightarrow> entity_status" where
  "operator_condition_step st c =
     (if cond_type c = ''Degraded'' \<and> cond_status c = ''True''
      then st\<lparr>status := Unhealthy, issues := issues st @ [cond_message c]\<rparr>
      else if cond_type c = ''Progressing'' \<and> cond_status c = ''True''
      then st\<lparr>status := Warning,
              issues := issues st @ [''Operator is progressing: '' @ cond_message c]\<rparr>
      else if cond_type c = ''Available'' \<and> cond_status c \<noteq> ''True''
      then st\<lparr>status := Unhealthy,
              issues := issues st @ [''Operator not available: '' @ cond_message c]\<rparr>
      else st)"

definition check_operator :: "operator \<Rightarrow> entity_status" where
  "check_operator op =
     (let st = \<lparr>name = operator_name op, status = Healthy, issues = []\<rparr>
      in case operator_conditions op of
           None \<Rightarrow> st
         | Some cs \<Rightarrow> foldl operator_condition_step st cs)"

definition check_critical_operators ::
  "'s cluster \<Rightarrow> 's world \<Rightarrow> entity_status list \<times> 's world" where
  "check_critical_operators c w =
     (case remote (get_cluster_operators c None) w of
        (Inl e, w1) \<Rightarrow>
          ([\<lparr>name = ''unknown'', status = Error, issues = [str_exn e]\<rparr>],
           console_print (''[red]Error checking critical operators: '' @ str_exn e @ ''[/red]'') w1)
      | (Inr operator_list, w1) \<Rightarrow> (map check_operator operator_list, w1))"

section \<open>Fetching pods page by page\<close>

text \<open>
  The \<open>while pod_list.metadata._continue\<close> loop of \<open>_get_paginated_pods\<close>, entered with
  the token of the page just read and the pods gathered so far. The server decides when
  the tokens end, so the loop is bounded by fuel: \<open>None\<close> means it was still asking for
  pages when the fuel ran out. A page that is \<open>None\<close> or has no items ends the loop.
\<close>

fun pods_pages ::
  "'s cluster \<Rightarrow> nat \<Rightarrow> string \<Rightarrow> string option \<Rightarrow> token option \<Rightarrow> pod list \<Rightarrow> 's world
     \<Rightarrow> ((exn + pod list) \<times> 's world) option" where
  "pods_pages c 0 ns sel tok pods w =
     (if truthy tok then None else Some (Inr pods, w))"
| "pods_pages c (Suc fuel) ns sel tok pods w =
     (if truthy tok
      then (case remote (list_namespaced_pod c ns sel \<lparr>limit = Some 100, continue = tok\<rparr>) w of
              (Raises e, w1) \<Rightarrow> Some (Inl e, w1)
            | (Returns None, w1) \<Rightarrow> Some (Inr pods, w1)
            | (Returns (Some pod_list), w1) \<Rightarrow>
                (if items pod_list \<noteq> []
                 then pods_pages c fuel ns sel (metadata_continue pod_list)
                        (pods @ items pod_list) w1
                 else Some (Inr pods, w1)))
      else Some (Inr pods, w))"

text \<open>The body of the \<open>try\<close>: the first page, then the loop. \<open>Inl\<close> is a raised exception.\<close>

definition pods_try ::
  "'s cluster \<Rightarrow> nat \<Rightarrow> string \<Rightarrow> string option \<Rightarrow> 's world
     \<Rightarrow> ((exn + pod list) \<times> 's world) option" where
  "pods_try c fuel ns sel w =
     (case remote (list_namespaced_pod c ns sel \<lparr>limit = Some 100, continue = None\<rparr>) w of
        (Raises e, w1) \<Rightarrow> Some (Inl e, w1)
      | (Returns None, w1) \<Rightarrow> Some (Inr [], w1)
      | (Returns (Some pod_list), w1) \<Rightarrow>
          pods_pages c fuel ns sel (metadata_continue pod_list) (items pod_list) w1)"

text \<open>Both handlers print and return the empty list.\<close>

definition get_paginated_pods ::
  "'s cluster \<Rightarrow> nat \<Rightarrow> string \<Rightarrow> string option \<Rightarrow> 's world \<Rightarrow> (pod list \<times> 's world) option" where
  "get_paginated_pods c fuel ns sel w =
     (case pods_try c fuel ns sel w of
        None \<Rightarrow> None
      | Some (Inr pods, w1) \<Rightarrow> Some (pods, w1)
      | Some (Inl (ApiException s), w1) \<Rightarrow>
          Some ([], console_print (''[red]Error getting pods: '' @ s @ ''[/red]'') w1)
      | Some (Inl (OtherException s), w1) \<Rightarrow>
          Some ([], console_print (''[red]Unexpected error getting pods: '' @ s @ ''[/red]'') w1))"

section \<open>The generic paginated call with retries\<close>

text \<open>Decimal rendering of a number inside an f-string.\<close>

function str_nat :: "nat \<Rightarrow> string" where
  "str_nat n =
     (if n < 10 then [''0123456789'' ! n]
      else str_nat (n div 10) @ [''0123456789'' ! (n mod 10)])"
  by pat_completeness auto
termination
  by (relation "measure id") auto

declare str_nat.simps [simp del]

text \<open>\<open>str(last_error)\<close>, where \<open>last_error\<close> starts as \<open>None\<close>.\<close>

fun str_last_error :: "exn option \<Rightarrow> string" where
  "str_last_error None = ''None''"
| "str_last_error (Some e) = str_exn e"

text \<open>Reading \<open>.items\<close> of a response that is \<open>None\<close> raises an \<open>AttributeError\<close>.\<close>

definition none_has_no_items :: exn where
  "none_has_no_items =
     OtherException ([CHR 0x27] @ ''NoneType'' @ [CHR 0x27] @ '' object has no attribute ''
                     @ [CHR 0x27] @ ''items'' @ [CHR 0x27])"

definition max_retries :: nat where
  "max_retries = 3"

text \<open>
  The inner \<open>while response.metadata._continue\<close> loop. It stores the token in \<open>kwargs\<close>
  before each call, and \<open>kwargs\<close> outlives the attempt, so the loop returns it as well.
\<close>

fun response_pages ::
  "('s, 'a) api_call \<Rightarrow> nat \<Rightarrow> list_kwargs \<Rightarrow> token option \<Rightarrow> 'a list \<Rightarrow> 's world
     \<Rightarrow> ((exn + 'a list) \<times> list_kwargs \<times> 's world) option" where
  "response_pages api_call 0 kwargs tok its w =
     (if truthy tok then None else Some (Inr its, kwargs, w))"
| "response_pages api_call (Suc fuel) kwargs tok its w =
     (if truthy tok
      then (let kwargs1 = kwargs\<lparr>continue := tok\<rparr>
            in case remote (api_call kwargs1) w of
                 (Raises e, w1) \<Rightarrow> Some (Inl e, kwargs1, w1)
               | (Returns None, w1) \<Rightarrow> Some (Inl none_has_no_items, kwargs1, w1)
               | (Returns (Some response), w1) \<Rightarrow>
                   response_pages api_call fuel kwargs1 (metadata_continue response)
                     (its @ items response) w1)
      else Some (Inr its, kwargs, w))"

text \<open>The body of the \<open>try\<close> of one attempt.\<close>

definition response_try ::
  "('s, 'a) api_call \<Rightarrow> nat \<Rightarrow> list_kwargs \<Rightarrow> 's world
     \<Rightarrow> ((exn + 'a list) \<times> list_kwargs \<times> 's world) option" where
  "response_try api_call fuel kwargs w =
     (let kwargs1 = kwargs\<lparr>limit := Some 50\<rparr>
      in case remote (api_call kwargs1) w of
           (Raises e, w1) \<Rightarrow> Some (Inl e, kwargs1, w1)
         | (Returns None, w1) \<Rightarrow> Some (Inl none_has_no_items, kwargs1, w1)
         | (Returns (Some response), w1) \<Rightarrow>
             response_pages api_call fuel kwargs1 (metadata_continue response)
               (items response) w1)"

text \<open>The line the handler prints, \<open>retry_count\<close> being the value before the increment.\<close>

definition retry_warning :: "nat \<Rightarrow> exn \<Rightarrow> string" where
  "retry_warning retry_count e =
     ''[yellow]Warning: API call failed, attempt '' @ str_nat (retry_count + 1) @ '' of ''
     @ str_nat max_retries @ ''... ('' @ str_exn e @ '')[/yellow]''"

text \<open>
  The \<open>while retry_count < max_retries\<close> loop with its handler, and the final \<open>raise\<close>.
\<close>

function response_retry ::
  "('s, 'a) api_call \<Rightarrow> nat \<Rightarrow> nat \<Rightarrow> exn option \<Rightarrow> list_kwargs \<Rightarrow> 's world
     \<Rightarrow> ((exn + 'a list) \<times> 's world) option" where
  "response_retry api_call fuel retry_count last_error kwargs w =
     (if retry_count < max_retries
      then (case response_try api_call fuel kwargs w of
              None \<Rightarrow> None
            | Some (Inr its, kwargs1, w1) \<Rightarrow> Some (Inr its, w1)
            | Some (Inl e, kwargs1, w1) \<Rightarrow>
                (let w2 = console_print (retry_warning retry_count e) w1
                 in response_retry api_call fuel (retry_count + 1) (Some e) kwargs1
                      (if retry_count + 1 < max_retries then time_sleep 1 w2 else w2)))
      else Some (Inl (OtherException
                        (''Failed after '' @ str_nat max_retries
                         @ '' attempts. Last error: '' @ str_last_error last_error)), w))"
  by pat_completeness auto
termination
  by (relation "measure (\<lambda>(api_call, fuel, retry_count, last_error, kwargs, w).
                  max_retries - retry_count)") auto

declare response_retry.simps [simp del]

definition get_paginated_response ::
  "('s, 'a) api_call \<Rightarrow> nat \<Rightarrow> list_kwargs \<Rightarrow> 's world \<Rightarrow> ((exn + 'a list) \<times> 's world) option" where
  "get_paginated_response api_call fuel kwargs w = response_retry api_call fuel 0 None kwargs w"

section \<open>etcd health\<close>

text \<open>
  The loop over the etcd operator's conditions returns from the function at the first
  condition that fires; \<open>None\<close> means that the loop ran to its end.
\<close>

fun etcd_operator_verdict :: "condition list \<Rightarrow> etcd_status option" where
  "etcd_operator_verdict [] = None"
| "etcd_operator_verdict (c # cs) =
     (if cond_type c = ''Degraded'' \<and> cond_status c = ''True''
      then Some \<lparr>etcd_level = Unhealthy, etcd_error = None,
                 etcd_issues = Some [cond_message c], etcd_message = None\<rparr>
      else if cond_type c = ''Available'' \<and> cond_status c \<noteq> ''True''
      then Some \<lparr>etcd_level = Unhealthy, etcd_error = None,
                 etcd_issues = Some [''etcd operator not available: '' @ cond_message c],
                 etcd_message = None\<rparr>
      else etcd_operator_verdict cs)"

text \<open>What one pod adds to \<open>unhealthy_pods\<close>.\<close>

definition etcd_pod_issues :: "pod \<Rightarrow> string list" where
  "etcd_pod_issues p =
     (case pod_status p of
        None \<Rightarrow> [pod_name p @ '': Unable to get pod status'']
      | Some st \<Rightarrow>
          (if phase st \<noteq> ''Running'' then [pod_name p @ '': '' @ phase st]
           else case container_statuses st of
                  None \<Rightarrow> []
                | Some cs \<Rightarrow>
                    map (\<lambda>container. pod_name p @ '': container '' @ container_name container
                                      @ '' not ready'')
                        (filter (\<lambda>container. \<not> container_ready container) cs)))"

definition etcd_error_result :: "string \<Rightarrow> etcd_status" where
  "etcd_error_result msg =
     \<lparr>etcd_level = Error, etcd_error = Some msg, etcd_issues = None, etcd_message = None\<rparr>"

definition check_etcd_health ::
  "'s cluster \<Rightarrow> nat \<Rightarrow> 's world \<Rightarrow> (etcd_status \<times> 's world) option" where
  "check_etcd_health c fuel w =
     (case remote (get_cluster_operators c (Some ''metadata.name=etcd'')) w of
        (Inl e, w1) \<Rightarrow>
          Some (etcd_error_result (str_exn e),
                console_print (''[red]Error checking etcd health: '' @ str_exn e @ ''[/red]'') w1)
      | (Inr etcd_operator_list, w1) \<Rightarrow>
          (case etcd_operator_list of
             [] \<Rightarrow> Some (etcd_error_result ''Unable to find etcd operator'', w1)
           | etcd_operator # _ \<Rightarrow>
               (case (case operator_conditions etcd_operator of
                        None \<Rightarrow> None
                      | Some cs \<Rightarrow> etcd_operator_verdict cs) of
                  Some verdict \<Rightarrow> Some (verdict, w1)
                | None \<Rightarrow>
                    (case get_paginated_pods c fuel ''openshift-etcd'' (Some ''app=etcd'') w1 of
                       None \<Rightarrow> None
                     | Some (etcd_pods, w2) \<Rightarrow>
                         (if etcd_pods = []
                          then Some (etcd_error_result ''No etcd pods found'', w2)
                          else (let unhealthy_pods = concat (map etcd_pod_issues etcd_pods)
                                in if unhealthy_pods \<noteq> []
                                   then Some (\<lparr>etcd_level = Unhealthy, etcd_error = None,
                                               etcd_issues = Some unhealthy_pods,
                                               etcd_message = None\<rparr>, w2)
                                   else Some (\<lparr>etcd_level = Healthy, etcd_error = None,
                                               etcd_issues = None,
                                               etcd_message =
                                                 Some ''All etcd pods are running and ready''\<rparr>,
                                              w2)))))))"

section \<open>Control-plane pods\<close>

definition critical_namespaces :: "string list" where
  "critical_namespaces =
     [''openshift-etcd'', ''openshift-apiserver'', ''openshift-kube-apiserver'',
      ''openshift-kube-controller-manager'', ''openshift-kube-scheduler'']"

definition components :: "string list" where
  "components = [''etcd'', ''apiserver'', ''controller-manager'', ''scheduler'']"

text \<open>Python's \<open>sub in s\<close> on strings.\<close>

fun str_contains :: "string \<Rightarrow> string \<Rightarrow> bool" where
  "str_contains sub [] = (sub = [])"
| "str_contains sub (ch # rest) =
     (take (length sub) (ch # rest) = sub \<or> str_contains sub rest)"

definition is_control_plane_pod :: "pod \<Rightarrow> bool" where
  "is_control_plane_pod p = list_ex (\<lambda>component. str_contains component (pod_name p)) components"

text \<open>The status dictionary built for a pod that passed the name filter.\<close>

definition container_step :: "component_status \<Rightarrow> container_status \<Rightarrow> component_status" where
  "container_step st container =
     (if \<not> container_ready container
      then st\<lparr>status := Unhealthy,
              issues := issues st @ [''Container '' @ container_name container @ '' not ready'']\<rparr>
      else st)"

definition check_pod :: "string \<Rightarrow> pod \<Rightarrow> component_status" where
  "check_pod ns p =
     (let st = \<lparr>name = pod_name p, status = Healthy, issues = [], namespace = ns\<rparr>
      in case pod_status p of
           None \<Rightarrow> st\<lparr>status := Error, issues := issues st @ [''Unable to get pod status'']\<rparr>
         | Some ps \<Rightarrow>
             (if phase ps \<noteq> ''Running''
              then st\<lparr>status := Unhealthy,
                      issues := issues st @ [''Pod not running: '' @ phase ps]\<rparr>
              else case container_statuses ps of
                     None \<Rightarrow> st
                   | Some cs \<Rightarrow> foldl container_step st cs))"

definition no_pods_placeholder :: "string \<Rightarrow> component_status" where
  "no_pods_placeholder ns =
     \<lparr>name = ''no-pods-in-'' @ ns, status = Warning,
      issues = [''No pods found in namespace '' @ ns], namespace = ns\<rparr>"

definition no_control_plane_pods_placeholder :: "string \<Rightarrow> component_status" where
  "no_control_plane_pods_placeholder ns =
     \<lparr>name = ''no-control-plane-pods-in-'' @ ns, status = Warning,
      issues = [''No control plane pods found in namespace '' @ ns], namespace = ns\<rparr>"

text \<open>
  What one iteration of the loop over the namespaces appends to \<open>results\<close>, given the
  pods it fetched: the first placeholder and \<open>continue\<close> when there are none, otherwise
  one entry per pod that passes the filter, and the second placeholder when
  \<open>found_control_plane_pods\<close> is still false.
\<close>

definition namespace_entries :: "string \<Rightarrow> pod list \<Rightarrow> component_status list" where
  "namespace_entries ns namespace_pods =
     (if namespace_pods = [] then [no_pods_placeholder ns]
      else (let kept = filter is_control_plane_pod namespace_pods
            in map (check_pod ns) kept
               @ (if kept = [] then [no_control_plane_pods_placeholder ns] else [])))"

fun namespaces_loop ::
  "'s cluster \<Rightarrow> nat \<Rightarrow> string list \<Rightarrow> component_status list \<Rightarrow> 's world
     \<Rightarrow> (component_status list \<times> 's world) option" where
  "namespaces_loop c fuel [] results w = Some (results, w)"
| "namespaces_loop c fuel (ns # rest) results w =
     (case get_paginated_pods c fuel ns None w of
        None \<Rightarrow> None
      | Some (namespace_pods, w1) \<Rightarrow>
          namespaces_loop c fuel rest (results @ namespace_entries ns namespace_pods) w1)"

definition check_control_plane_pods ::
  "'s cluster \<Rightarrow> nat \<Rightarrow> 's world \<Rightarrow> (component_status list \<times> 's world) option" where
  "check_control_plane_pods c fuel w =
     (case namespaces_loop c fuel critical_namespaces [] w of
        None \<Rightarrow> None
      | Some (results, w1) \<Rightarrow>
          (if results = []
           then Some ([\<lparr>name = ''unknown'', status = Error,
                        issues = [''No control plane pods found in any namespace''],
                        namespace = ''unknown''\<rparr>], w1)
           else Some (results, w1)))"

section \<open>Properties to be checked\<close>

text \<open>
  The invariant of a status dictionary: a level of \<open>Unhealthy\<close> or \<open>Error\<close> comes with at
  least one recorded issue.
\<close>

definition issues_recorded :: "'a entity_status_scheme \<Rightarrow> bool" where
  "issues_recorded e = (status e = Unhealthy \<or> status e = Error \<longrightarrow> issues e \<noteq> [])"

text \<open>
  The etcd operator passes its check when none of its conditions is a true \<open>Degraded\<close> or
  an \<open>Available\<close> that is not true.
\<close>

definition etcd_operator_passes :: "operator \<Rightarrow> bool" where
  "etcd_operator_passes op =
     (case operator_conditions op of
        None \<Rightarrow> True
      | Some cs \<Rightarrow>
          list_all (\<lambda>c. \<not> (cond_type c = ''Degraded'' \<and> cond_status c = ''True'')
                       \<and> \<not> (cond_type c = ''Available'' \<and> cond_status c \<noteq> ''True'')) cs)"

text \<open>
  A server that, asked with the given page size and token in the given state, answers
  with the given pages one after the other: every page but the last carries a token that
  is true in Python and opens the next page, the last page carries none, and no page
  is longer than the page size.
\<close>

fun serves :: "('s, 'a) api_call \<Rightarrow> nat \<Rightarrow> token option \<Rightarrow> 's \<Rightarrow> 'a list list \<Rightarrow> bool" where
  "serves api_call page_size tok s [] = False"
| "serves api_call page_size tok s (p # ps) =
     (case api_call \<lparr>limit = Some page_size, continue = tok\<rparr> s of
        (Returns (Some pg), s') \<Rightarrow>
          items pg = p \<and> length p \<le> page_size
          \<and> (if ps = [] then \<not> truthy (metadata_continue pg)
              else truthy (metadata_continue pg)
                   \<and> serves api_call page_size (metadata_continue pg) s' ps)
      | _ \<Rightarrow> False)"

text \<open>
  The pods that the loop over the namespaces obtains for each namespace, in order, with
  the world threaded as the loop threads it.
\<close>

fun namespaces_fetched ::
  "'s cluster \<Rightarrow> nat \<Rightarrow> string list \<Rightarrow> 's world \<Rightarrow> (string \<times> pod list) list option" where
  "namespaces_fetched c fuel [] w = Some []"
| "namespaces_fetched c fuel (ns # rest) w =
     (case get_paginated_pods c fuel ns None w of
        None \<Rightarrow> None
      | Some (namespace_pods, w1) \<Rightarrow>
          map_option ((#) (ns, namespace_pods)) (namespaces_fetched c fuel rest w1))"

subsection \<open>Concrete clusters\<close>

text \<open>
  A server with static pages, looked up by the token of the request. Its state counts the
  calls made so far; the calls whose number is listed fail with a timeout, and a token
  that opens no page is answered with an error.
\<close>

definition paged_server :: "(token option \<times> 'a page) list \<Rightarrow> nat list \<Rightarrow> (nat, 'a) api_call" where
  "paged_server table failing kwargs n =
     (if n \<in> set failing then Raises (ApiException ''timeout'')
      else case map_of table (continue kwargs) of
             Some pg \<Rightarrow> Returns (Some pg)
           | None \<Rightarrow> Raises (ApiException ''410 Gone''),
      Suc n)"

definition example_cluster ::
  "(exn + node list) \<Rightarrow> (exn + operator list) \<Rightarrow> (string \<Rightarrow> (nat, pod) api_call)
     \<Rightarrow> nat cluster" where
  "example_cluster nodes operators pods =
     \<lparr>get_nodes = (\<lambda>label_selector n. (nodes, Suc n)),
      get_cluster_operators = (\<lambda>field_selector n. (operators, Suc n)),
      list_namespaced_pod = (\<lambda>ns label_selector. pods ns)\<rparr>"

definition world0 :: "nat world" where
  "world0 = \<lparr>server = 0, console = [], slept = []\<rparr>"

definition not_ready :: condition where
  "not_ready = \<lparr>cond_type = ''Ready'', cond_status = ''False'',
                 cond_message = ''kubelet stopped''\<rparr>"

definition disk_pressure :: condition where
  "disk_pressure = \<lparr>cond_type = ''DiskPressure'', cond_status = ''True'',
                     cond_message = ''disk full''\<rparr>"

definition degraded :: condition where
  "degraded = \<lparr>cond_type = ''Degraded'', cond_status = ''True'',
                cond_message = ''raft instability''\<rparr>"

definition progressing :: condition where
  "progressing = \<lparr>cond_type = ''Progressing'', cond_status = ''True'',
                   cond_message = ''rolling out''\<rparr>"

definition available :: condition where
  "available = \<lparr>cond_type = ''Available'', cond_status = ''True'', cond_message = ''ok''\<rparr>"

definition pod_a :: pod where
  "pod_a = \<lparr>pod_name = ''etcd-master-0'',
             pod_status = Some \<lparr>phase = ''Pending'', container_statuses = None\<rparr>\<rparr>"

definition pod_b :: pod where
  "pod_b = \<lparr>pod_name = ''etcd-master-1'',
             pod_status = Some \<lparr>phase = ''Running'', container_statuses = Some []\<rparr>\<rparr>"

definition pod_unrelated :: pod where
  "pod_unrelated = \<lparr>pod_name = ''foo-unrelated'',
                     pod_status = Some \<lparr>phase = ''Running'', container_statuses = None\<rparr>\<rparr>"

text \<open>Two pages of pods, and three pages the second of which is empty.\<close>

definition two_pages :: "(token option \<times> pod page) list" where
  "two_pages =
     [(None, \<lparr>items = [pod_a], metadata_continue = Some ''t1''\<rparr>),
      (Some ''t1'', \<lparr>items = [pod_b], metadata_continue = None\<rparr>)]"

definition empty_middle_page :: "(token option \<times> pod page) list" where
  "empty_middle_page =
     [(None, \<lparr>items = [pod_a], metadata_continue = Some ''t1''\<rparr>),
      (Some ''t1'', \<lparr>items = [], metadata_continue = Some ''t2''\<rparr>),
      (Some ''t2'', \<lparr>items = [pod_b], metadata_continue = None\<rparr>)]"

text \<open>
  A cluster with one node that is not ready, one degraded operator, and the two pages of
  pods in every namespace.
\<close>

definition unhealthy_cluster :: "nat cluster" where
  "unhealthy_cluster =
     example_cluster
       (Inr [\<lparr>node_name = ''master-0'', node_conditions = [not_ready]\<rparr>])
       (Inr [\<lparr>operator_name = ''etcd'', operator_conditions = Some [degraded]\<rparr>])
       (\<lambda>ns. paged_server two_pages [])"

text \<open>A cluster whose etcd operator is available and whose namespaces hold no pods.\<close>

definition etcd_without_pods :: "nat cluster" where
  "etcd_without_pods =
     example_cluster (Inr [])
       (Inr [\<lparr>operator_name = ''etcd'', operator_conditions = Some [available]\<rparr>])
       (\<lambda>ns. paged_server [(None, \<lparr>items = [], metadata_continue = None\<rparr>)] [])"

text \<open>
  A cluster whose \<open>openshift-etcd\<close> namespace holds one pod that is no control-plane pod,
  and whose other namespaces are empty.
\<close>

definition mixed_cluster :: "nat cluster" where
  "mixed_cluster =
     example_cluster (Inr []) (Inr [])
       (\<lambda>ns. if ns = ''openshift-etcd''
             then paged_server [(None, \<lparr>items = [pod_unrelated], metadata_continue = None\<rparr>)] []
             else paged_server [(None, \<lparr>items = [], metadata_continue = None\<rparr>)] [])"



text \<open>A cluster that serves the two pages of pods in every namespace.\<close>

definition two_page_cluster :: "nat cluster" where
  "two_page_cluster = example_cluster (Inr []) (Inr []) (\<lambda>ns. paged_server two_pages [])"

section \<open>Basic facts\<close>

lemma remote_eq [simp]:
  "remote f w = (fst (f (server w)), w\<lparr>server := snd (f (server w))\<rparr>)"
  by (simp add: remote_def split: prod.splits)

text \<open>The definitions to unfold when a check is run on a concrete cluster.\<close>

lemmas example_defs =
  example_cluster_def paged_server_def world0_def two_pages_def empty_middle_page_def
  pod_a_def pod_b_def pod_unrelated_def not_ready_def disk_pressure_def degraded_def
  progressing_def available_def

lemmas probe_defs =
  check_master_nodes_def check_node_def node_condition_step_def pressure_types_def
  check_critical_operators_def check_operator_def operator_condition_step_def
  check_control_plane_pods_def critical_namespaces_def namespace_entries_def
  is_control_plane_pod_def components_def check_pod_def container_step_def
  no_pods_placeholder_def no_control_plane_pods_placeholder_def
  get_paginated_pods_def pods_try_def console_print_def time_sleep_def

lemma str_nat_digits [simp]: "str_nat 3 = ''3''" "str_nat 2 = ''2''" "str_nat 1 = ''1''"
  "str_nat (Suc 0) = ''1''" "str_nat (Suc (Suc 0)) = ''2''"
  by (simp_all add: str_nat.simps)

lemmas retry_defs =
  get_paginated_response_def response_retry.simps response_try_def max_retries_def
  retry_warning_def none_has_no_items_def

section \<open>Master nodes: level and placeholder\<close>

text \<open>
  Claim C1 says that a node with a \<open>Ready\<close> condition that is not true is always
  reported \<open>Unhealthy\<close>, whatever other conditions it has and in whatever order. The loop
  assigns the level at every condition that fires, so a pressure condition that follows
  the failed \<open>Ready\<close> condition lowers the level: the node below is not ready and under
  disk pressure, and is reported at level \<open>Warning\<close>, with the message still among its
  issues.
\<close>

theorem master_nodes_not_ready_then_pressure:
  "fst (check_master_nodes
          (example_cluster
             (Inr [\<lparr>node_name = ''master-0'', node_conditions = [not_ready, disk_pressure]\<rparr>])
             (Inr []) (\<lambda>ns. paged_server [] []))
          world0)
   = [\<lparr>name = ''master-0'', status = Warning,
       issues = [''Node not ready: kubelet stopped''],
       warnings = [''DiskPressure: disk full'']\<rparr>]"
  by (simp add: check_master_nodes_def example_cluster_def world0_def check_node_def
        node_condition_step_def not_ready_def disk_pressure_def pressure_types_def)

text \<open>
  Claim C4 says that a successful query that finds no master node gives exactly one
  placeholder entity of level \<open>Warning\<close>. On a cluster without master nodes the result is
  the empty list.
\<close>

theorem no_master_nodes_counterexample:
  "fst (check_master_nodes (example_cluster (Inr []) (Inr []) (\<lambda>ns. paged_server [] [])) world0)
   = []"
  by (simp add: check_master_nodes_def example_cluster_def world0_def)

text \<open>
  Claim C4 as amended: when the query succeeds and finds no master node, the result is
  the empty list (so it holds no entity of level \<open>Error\<close>), and the absence is reported
  by one warning line on the console.
\<close>

theorem no_master_nodes_empty_result:
  assumes "get_nodes c ''node-role.kubernetes.io/master'' (server w) = (Inr [], s1)"
  shows "check_master_nodes c w
         = ([], console_print ''[yellow]Warning: No master nodes found[/yellow]''
                  (w\<lparr>server := s1\<rparr>))"
  using assms by (simp add: check_master_nodes_def)

theorem no_master_nodes_empty_result_witness:
  "get_nodes (example_cluster (Inr []) (Inr []) (\<lambda>ns. paged_server [] []))
     ''node-role.kubernetes.io/master'' (server world0) = (Inr [], 1)
   \<and> check_master_nodes (example_cluster (Inr []) (Inr []) (\<lambda>ns. paged_server [] [])) world0
     = ([], \<lparr>server = 1, console = [''[yellow]Warning: No master nodes found[/yellow]''],
             slept = []\<rparr>)"
proof -
  have h: "get_nodes (example_cluster (Inr []) (Inr []) (\<lambda>ns. paged_server [] []))
     ''node-role.kubernetes.io/master'' (server world0) = (Inr [], 1)"
    by (simp add: example_cluster_def world0_def)
  from no_master_nodes_empty_result [OF h] h show ?thesis
    by (simp add: console_print_def world0_def)
qed

section \<open>Critical operators: level\<close>

text \<open>
  Claim C3 says that an operator on which several adverse conditions fire gets the highest
  level among them and keeps every message, in any order of the conditions. The messages
  are all kept, but the level is the one of the last condition that fired: the operator
  below is degraded and then progressing, and is reported at level \<open>Warning\<close>.
\<close>

theorem operators_degraded_then_progressing:
  "fst (check_critical_operators
          (example_cluster (Inr [])
             (Inr [\<lparr>operator_name = ''etcd'',
                    operator_conditions = Some [degraded, progressing]\<rparr>])
             (\<lambda>ns. paged_server [] []))
          world0)
   = [\<lparr>name = ''etcd'', status = Warning,
       issues = [''raft instability'', ''Operator is progressing: rolling out'']\<rparr>]"
  by (simp add: check_critical_operators_def example_cluster_def world0_def check_operator_def
        operator_condition_step_def degraded_def progressing_def)

section \<open>Every entity records its issues\<close>

lemma node_condition_step_recorded:
  "issues_recorded st \<Longrightarrow> issues_recorded (node_condition_step st c)"
  by (simp add: issues_recorded_def node_condition_step_def)

lemma node_conditions_recorded:
  "issues_recorded st \<Longrightarrow> issues_recorded (foldl node_condition_step st cs)"
  by (induction cs arbitrary: st) (simp_all add: node_condition_step_recorded)

lemma check_node_recorded: "issues_recorded (check_node n)"
  unfolding check_node_def
  by (rule node_conditions_recorded) (simp add: issues_recorded_def)

lemma operator_condition_step_recorded:
  "issues_recorded st \<Longrightarrow> issues_recorded (operator_condition_step st c)"
  by (simp add: issues_recorded_def operator_condition_step_def)

lemma operator_conditions_recorded:
  "issues_recorded st \<Longrightarrow> issues_recorded (foldl operator_condition_step st cs)"
  by (induction cs arbitrary: st) (simp_all add: operator_condition_step_recorded)

lemma check_operator_recorded: "issues_recorded (check_operator op)"
proof (cases "operator_conditions op")
  case None
  then show ?thesis by (simp add: check_operator_def issues_recorded_def)
next
  case (Some cs)
  have "issues_recorded (foldl operator_condition_step
          \<lparr>name = operator_name op, status = Healthy, issues = []\<rparr> cs)"
    by (rule operator_conditions_recorded) (simp add: issues_recorded_def)
  with Some show ?thesis by (simp add: check_operator_def)
qed

lemma container_step_recorded:
  "issues_recorded st \<Longrightarrow> issues_recorded (container_step st k)"
  by (simp add: issues_recorded_def container_step_def)

lemma containers_recorded:
  "issues_recorded st \<Longrightarrow> issues_recorded (foldl container_step st ks)"
  by (induction ks arbitrary: st) (simp_all add: container_step_recorded)

lemma check_pod_recorded: "issues_recorded (check_pod ns p)"
proof (cases "pod_status p")
  case None
  then show ?thesis by (simp add: check_pod_def issues_recorded_def)
next
  case (Some ps)
  show ?thesis
  proof (cases "phase ps = ''Running''")
    case False
    with Some show ?thesis by (simp add: check_pod_def issues_recorded_def)
  next
    case True
    show ?thesis
    proof (cases "container_statuses ps")
      case None
      with Some True show ?thesis by (simp add: check_pod_def issues_recorded_def)
    next
      case (Some ks)
      have "issues_recorded (foldl container_step
              \<lparr>name = pod_name p, status = Healthy, issues = [], namespace = ns\<rparr> ks)"
        by (rule containers_recorded) (simp add: issues_recorded_def)
      with Some \<open>pod_status p = Some ps\<close> True show ?thesis by (simp add: check_pod_def)
    qed
  qed
qed

lemma placeholders_recorded:
  "issues_recorded (no_pods_placeholder ns)"
  "issues_recorded (no_control_plane_pods_placeholder ns)"
  by (simp_all add: no_pods_placeholder_def no_control_plane_pods_placeholder_def
        issues_recorded_def)

lemma namespace_entries_recorded:
  "e \<in> set (namespace_entries ns pods) \<Longrightarrow> issues_recorded e"
  by (auto simp: namespace_entries_def Let_def check_pod_recorded placeholders_recorded
        split: if_splits)

lemma issues_recordedI: "issues e \<noteq> [] \<Longrightarrow> issues_recorded e"
  by (simp add: issues_recorded_def)

lemma namespaces_loop_recorded:
  "namespaces_loop c fuel nss results w = Some (results', w') \<Longrightarrow>
   \<forall>e\<in>set results. issues_recorded e \<Longrightarrow> \<forall>e\<in>set results'. issues_recorded e"
proof (induction nss arbitrary: results w)
  case Nil
  then show ?case by simp
next
  case (Cons ns nss)
  from Cons.prems(1) obtain pods w1 where
    f: "get_paginated_pods c fuel ns None w = Some (pods, w1)" and
    l: "namespaces_loop c fuel nss (results @ namespace_entries ns pods) w1 = Some (results', w')"
    by (auto split: option.splits)
  have "\<forall>e\<in>set (results @ namespace_entries ns pods). issues_recorded e"
    using Cons.prems(2) namespace_entries_recorded by auto
  with Cons.IH [OF l] show ?case by blast
qed

lemma check_control_plane_pods_recorded:
  assumes "check_control_plane_pods c fuel w = Some (results, w')"
  shows "\<forall>e\<in>set results. issues_recorded e"
proof -
  from assms obtain rs where
    l: "namespaces_loop c fuel critical_namespaces [] w = Some (rs, w')" and
    r: "results = (if rs = [] then [\<lparr>name = ''unknown'', status = Error,
                        issues = [''No control plane pods found in any namespace''],
                        namespace = ''unknown''\<rparr>] else rs)"
    by (auto simp: check_control_plane_pods_def split: option.splits if_splits)
  have "\<forall>e\<in>set rs. issues_recorded e"
    using namespaces_loop_recorded [OF l] by simp
  with r show ?thesis by (auto simp: issues_recordedI)
qed

lemma check_master_nodes_recorded:
  "e \<in> set (fst (check_master_nodes c w)) \<Longrightarrow> issues_recorded e"
  by (auto simp: check_master_nodes_def Let_def check_node_recorded issues_recordedI
        split: prod.splits sum.splits)

lemma check_critical_operators_recorded:
  "e \<in> set (fst (check_critical_operators c w)) \<Longrightarrow> issues_recorded e"
  by (auto simp: check_critical_operators_def check_operator_recorded issues_recordedI
        split: prod.splits sum.splits)

text \<open>
  Claim C9: every entity that the master-nodes check, the critical-operators check or the
  control-plane-pods check produces has a non-empty list of issues whenever its level is
  \<open>Unhealthy\<close> or \<open>Error\<close>, for every cluster and every state of the world.
\<close>

theorem every_entity_records_its_issues:
  "(\<forall>e\<in>set (fst (check_master_nodes c w)). issues_recorded e)
   \<and> (\<forall>e\<in>set (fst (check_critical_operators c w)). issues_recorded e)
   \<and> (\<forall>results w'. check_control_plane_pods c fuel w = Some (results, w')
        \<longrightarrow> (\<forall>e\<in>set results. issues_recorded e))"
  using check_master_nodes_recorded check_critical_operators_recorded
    check_control_plane_pods_recorded by blast

lemma unhealthy_cluster_nodes: "fst (check_master_nodes unhealthy_cluster world0)
   = [\<lparr>name = ''master-0'', status = Unhealthy,
       issues = [''Node not ready: kubelet stopped''], warnings = []\<rparr>]"
  by (simp add: unhealthy_cluster_def example_defs probe_defs)

lemma unhealthy_cluster_operators: "fst (check_critical_operators unhealthy_cluster world0)
   = [\<lparr>name = ''etcd'', status = Unhealthy, issues = [''raft instability'']\<rparr>]"
  by (simp add: unhealthy_cluster_def example_defs probe_defs)

lemma unhealthy_cluster_pods: "map_option (\<lambda>r. fst r)
     (check_control_plane_pods unhealthy_cluster (Suc 0) world0)
  = Some (concat (map (\<lambda>ns.
      [\<lparr>name = ''etcd-master-0'', status = Unhealthy, issues = [''Pod not running: Pending''],
        namespace = ns\<rparr>,
       \<lparr>name = ''etcd-master-1'', status = Healthy, issues = [], namespace = ns\<rparr>])
      critical_namespaces))"
  by (simp add: unhealthy_cluster_def example_defs probe_defs)

theorem every_entity_records_its_issues_witness:
  "status (hd (fst (check_master_nodes unhealthy_cluster world0))) = Unhealthy
   \<and> issues (hd (fst (check_master_nodes unhealthy_cluster world0))) \<noteq> []
   \<and> status (hd (fst (check_critical_operators unhealthy_cluster world0))) = Unhealthy
   \<and> issues (hd (fst (check_critical_operators unhealthy_cluster world0))) \<noteq> []
   \<and> map_option (\<lambda>r. status (hd (fst r)))
        (check_control_plane_pods unhealthy_cluster (Suc 0) world0) = Some Unhealthy
   \<and> map_option (\<lambda>r. issues (hd (fst r)) \<noteq> [])
        (check_control_plane_pods unhealthy_cluster (Suc 0) world0) = Some True"
proof -
  note inv = every_entity_records_its_issues [of unhealthy_cluster world0 "Suc 0"]
  obtain results w' where
    run: "check_control_plane_pods unhealthy_cluster (Suc 0) world0 = Some (results, w')"
    using unhealthy_cluster_pods by (cases "check_control_plane_pods unhealthy_cluster (Suc 0) world0") auto
  with unhealthy_cluster_pods have results: "results = concat (map (\<lambda>ns.
      [\<lparr>name = ''etcd-master-0'', status = Unhealthy, issues = [''Pod not running: Pending''],
        namespace = ns\<rparr>,
       \<lparr>name = ''etcd-master-1'', status = Healthy, issues = [], namespace = ns\<rparr>])
      critical_namespaces)" by simp
  then have hd3: "hd results \<in> set results" "status (hd results) = Unhealthy"
    by (simp_all add: critical_namespaces_def)
  from inv run hd3 have "issues (hd results) \<noteq> []"
    by (auto simp: issues_recorded_def)
  moreover from inv unhealthy_cluster_nodes have "issues (hd (fst (check_master_nodes unhealthy_cluster world0))) \<noteq> []"
    by (auto simp: issues_recorded_def)
  moreover from inv unhealthy_cluster_operators have "issues (hd (fst (check_critical_operators unhealthy_cluster world0))) \<noteq> []"
    by (auto simp: issues_recorded_def)
  ultimately show ?thesis using unhealthy_cluster_nodes unhealthy_cluster_operators run hd3 by simp
qed

section \<open>etcd health without pods\<close>

lemma etcd_operator_verdict_passes:
  "list_all (\<lambda>c. \<not> (cond_type c = ''Degraded'' \<and> cond_status c = ''True'')
                \<and> \<not> (cond_type c = ''Available'' \<and> cond_status c \<noteq> ''True'')) cs
   \<Longrightarrow> etcd_operator_verdict cs = None"
  by (induction cs) auto

text \<open>
  Claim C7: when the etcd operator is found and passes its check, and the fetch of the
  etcd pods gives no pod, the result of the etcd check is \<open>Error\<close> with the message
  that no etcd pods were found, neither \<open>Unhealthy\<close> nor \<open>Healthy\<close>.
\<close>

theorem etcd_no_pods_is_error:
  assumes operator: "get_cluster_operators c (Some ''metadata.name=etcd'') (server w)
                     = (Inr (etcd_operator # others), s1)"
    and passes: "etcd_operator_passes etcd_operator"
    and no_pods: "get_paginated_pods c fuel ''openshift-etcd'' (Some ''app=etcd'')
                    (w\<lparr>server := s1\<rparr>) = Some ([], w2)"
  shows "check_etcd_health c fuel w
         = Some (\<lparr>etcd_level = Error, etcd_error = Some ''No etcd pods found'',
                  etcd_issues = None, etcd_message = None\<rparr>, w2)"
proof -
  have "(case operator_conditions etcd_operator of
           None \<Rightarrow> None | Some cs \<Rightarrow> etcd_operator_verdict cs) = None"
    using passes
    by (auto simp: etcd_operator_passes_def etcd_operator_verdict_passes split: option.splits)
  with operator no_pods show ?thesis
    by (simp add: check_etcd_health_def etcd_error_result_def)
qed

theorem etcd_no_pods_is_error_witness:
  "etcd_operator_passes \<lparr>operator_name = ''etcd'', operator_conditions = Some [available]\<rparr>
   \<and> map_option fst (get_paginated_pods etcd_without_pods 0 ''openshift-etcd''
                        (Some ''app=etcd'') (world0\<lparr>server := 1\<rparr>)) = Some []
   \<and> map_option fst (check_etcd_health etcd_without_pods 0 world0)
     = Some \<lparr>etcd_level = Error, etcd_error = Some ''No etcd pods found'',
              etcd_issues = None, etcd_message = None\<rparr>"
proof -
  have operator: "get_cluster_operators etcd_without_pods (Some ''metadata.name=etcd'')
                    (server world0)
                  = (Inr (\<lparr>operator_name = ''etcd'', operator_conditions = Some [available]\<rparr>
                          # []), 1)"
    by (simp add: etcd_without_pods_def example_defs)
  have passes: "etcd_operator_passes
                  \<lparr>operator_name = ''etcd'', operator_conditions = Some [available]\<rparr>"
    by (simp add: etcd_operator_passes_def available_def)
  have no_pods: "get_paginated_pods etcd_without_pods 0 ''openshift-etcd'' (Some ''app=etcd'')
                   (world0\<lparr>server := 1\<rparr>)
                 = Some ([], \<lparr>server = 2, console = [], slept = []\<rparr>)"
    by (simp add: etcd_without_pods_def example_defs probe_defs)
  from etcd_no_pods_is_error [OF operator passes no_pods] passes no_pods
  show ?thesis by simp
qed

section \<open>Control-plane pods: the two placeholders\<close>

lemma namespaces_loop_fetched:
  "namespaces_loop c fuel nss results w = Some (results', w') \<Longrightarrow>
   \<exists>fetched. namespaces_fetched c fuel nss w = Some fetched \<and> map fst fetched = nss
     \<and> results' = results @ concat (map (\<lambda>(ns, pods). namespace_entries ns pods) fetched)"
proof (induction nss arbitrary: results w)
  case Nil
  then show ?case by simp
next
  case (Cons ns nss)
  from Cons.prems obtain pods w1 where
    f: "get_paginated_pods c fuel ns None w = Some (pods, w1)" and
    l: "namespaces_loop c fuel nss (results @ namespace_entries ns pods) w1 = Some (results', w')"
    by (auto split: option.splits)
  from Cons.IH [OF l] obtain fetched where
    "namespaces_fetched c fuel nss w1 = Some fetched" "map fst fetched = nss"
    "results' = (results @ namespace_entries ns pods)
                @ concat (map (\<lambda>(ns, pods). namespace_entries ns pods) fetched)"
    by blast
  with f show ?case by simp
qed

lemma container_step_not_warning:
  "status st \<noteq> Warning \<Longrightarrow> status (container_step st k) \<noteq> Warning"
  by (simp add: container_step_def)

lemma containers_not_warning:
  "status st \<noteq> Warning \<Longrightarrow> status (foldl container_step st ks) \<noteq> Warning"
  by (induction ks arbitrary: st) (simp_all add: container_step_not_warning)

lemma check_pod_not_warning: "status (check_pod ns p) \<noteq> Warning"
  by (simp add: check_pod_def Let_def containers_not_warning split: option.splits)

lemma container_step_namespace: "namespace (container_step st k) = namespace st"
  by (simp add: container_step_def)

lemma containers_namespace: "namespace (foldl container_step st ks) = namespace st"
  by (induction ks arbitrary: st) (simp_all add: container_step_namespace)

lemma check_pod_namespace: "namespace (check_pod ns p) = ns"
  by (simp add: check_pod_def Let_def containers_namespace split: option.splits)

lemma placeholder_facts [simp]:
  "status (no_pods_placeholder ns) = Warning"
  "status (no_control_plane_pods_placeholder ns) = Warning"
  "namespace (no_pods_placeholder ns) = ns"
  "namespace (no_control_plane_pods_placeholder ns) = ns"
  "no_pods_placeholder ns \<noteq> no_control_plane_pods_placeholder ns'"
  by (simp_all add: no_pods_placeholder_def no_control_plane_pods_placeholder_def)

lemma no_pods_placeholder_in_entries:
  "no_pods_placeholder ns' \<in> set (namespace_entries ns pods) \<longleftrightarrow> ns' = ns \<and> pods = []"
proof
  assume a: "no_pods_placeholder ns' \<in> set (namespace_entries ns pods)"
  show "ns' = ns \<and> pods = []"
  proof (cases "pods = []")
    case True
    with a show ?thesis by (simp add: namespace_entries_def no_pods_placeholder_def)
  next
    case False
    with a have "no_pods_placeholder ns' \<in> check_pod ns ` set (filter is_control_plane_pod pods)
                 \<or> no_pods_placeholder ns' = no_control_plane_pods_placeholder ns"
      by (auto simp: namespace_entries_def Let_def split: if_splits)
    then show ?thesis
    proof
      assume "no_pods_placeholder ns' \<in> check_pod ns ` set (filter is_control_plane_pod pods)"
      then obtain p where "no_pods_placeholder ns' = check_pod ns p" by blast
      then have "status (check_pod ns p) = Warning" by (metis placeholder_facts(1))
      then show ?thesis by (simp add: check_pod_not_warning)
    next
      assume "no_pods_placeholder ns' = no_control_plane_pods_placeholder ns"
      then show ?thesis by simp
    qed
  qed
next
  assume "ns' = ns \<and> pods = []"
  then show "no_pods_placeholder ns' \<in> set (namespace_entries ns pods)"
    by (simp add: namespace_entries_def)
qed

lemma no_control_plane_pods_placeholder_in_entries:
  "no_control_plane_pods_placeholder ns' \<in> set (namespace_entries ns pods)
   \<longleftrightarrow> ns' = ns \<and> pods \<noteq> [] \<and> \<not> list_ex is_control_plane_pod pods"
proof
  assume a: "no_control_plane_pods_placeholder ns' \<in> set (namespace_entries ns pods)"
  show "ns' = ns \<and> pods \<noteq> [] \<and> \<not> list_ex is_control_plane_pod pods"
  proof (cases "pods = []")
    case True
    with a have "no_control_plane_pods_placeholder ns' = no_pods_placeholder ns"
      by (simp add: namespace_entries_def)
    then show ?thesis by (metis placeholder_facts(5))
  next
    case False
    show ?thesis
    proof (cases "filter is_control_plane_pod pods = []")
      case True
      with a False have "no_control_plane_pods_placeholder ns' = no_control_plane_pods_placeholder ns"
        by (simp add: namespace_entries_def)
      then have "ns' = ns" by (metis placeholder_facts(4))
      with True False show ?thesis by (simp add: filter_empty_conv list_ex_iff)
    next
      case kept: False
      with a False obtain p where "no_control_plane_pods_placeholder ns' = check_pod ns p"
        by (auto simp: namespace_entries_def Let_def)
      then have "status (check_pod ns p) = Warning" by (metis placeholder_facts(2))
      then show ?thesis by (simp add: check_pod_not_warning)
    qed
  qed
next
  assume "ns' = ns \<and> pods \<noteq> [] \<and> \<not> list_ex is_control_plane_pod pods"
  then show "no_control_plane_pods_placeholder ns' \<in> set (namespace_entries ns pods)"
    by (simp add: namespace_entries_def filter_empty_conv list_ex_iff)
qed

lemma control_plane_results:
  assumes run: "check_control_plane_pods c fuel w = Some (results, w')"
    and fetched: "namespaces_fetched c fuel critical_namespaces w = Some fetched"
  shows "map fst fetched = critical_namespaces"
    and "results = concat (map (\<lambda>(ns, pods). namespace_entries ns pods) fetched)"
proof -
  from run obtain rs where
    l: "namespaces_loop c fuel critical_namespaces [] w = Some (rs, w')" and
    r: "results = (if rs = [] then [\<lparr>name = ''unknown'', status = Error,
                        issues = [''No control plane pods found in any namespace''],
                        namespace = ''unknown''\<rparr>] else rs)"
    by (auto simp: check_control_plane_pods_def split: option.splits if_splits)
  from namespaces_loop_fetched [OF l] fetched have
    m: "map fst fetched = critical_namespaces" and
    rs: "rs = concat (map (\<lambda>(ns, pods). namespace_entries ns pods) fetched)"
    by auto
  show "map fst fetched = critical_namespaces" by (rule m)
  from m obtain y ys where "fetched = y # ys"
    by (cases fetched) (auto simp: critical_namespaces_def)
  then have "rs \<noteq> []"
    using rs by (cases y) (auto simp: namespace_entries_def Let_def)
  with r have "results = rs" by simp
  with rs show "results = concat (map (\<lambda>(ns, pods). namespace_entries ns pods) fetched)"
    by simp
qed

lemma distinct_critical_namespaces: "distinct critical_namespaces"
  by (simp add: critical_namespaces_def)

lemma namespaces_loop_returns:
  "namespaces_fetched c fuel nss w = Some fetched \<Longrightarrow>
   \<exists>results' w'. namespaces_loop c fuel nss results w = Some (results', w')"
proof (induction nss arbitrary: results w fetched)
  case Nil
  then show ?case by simp
next
  case (Cons ns nss)
  from Cons.prems obtain pods w1 rest where
    f: "get_paginated_pods c fuel ns None w = Some (pods, w1)" and
    r: "namespaces_fetched c fuel nss w1 = Some rest"
    by (auto split: option.splits)
  from Cons.IH [OF r] obtain results' w' where
    "namespaces_loop c fuel nss (results @ namespace_entries ns pods) w1 = Some (results', w')"
    by blast
  with f show ?case by simp
qed

lemma check_control_plane_pods_returns:
  assumes "namespaces_fetched c fuel critical_namespaces w = Some fetched"
  shows "\<exists>results w'. check_control_plane_pods c fuel w = Some (results, w')"
proof -
  from namespaces_loop_returns [OF assms] obtain rs w' where
    "namespaces_loop c fuel critical_namespaces [] w = Some (rs, w')"
    by blast
  then show ?thesis by (simp add: check_control_plane_pods_def)
qed

text \<open>
  Claim C8: when the fetches for the critical namespaces all return, the
  control-plane-pods check returns a result, and for every critical namespace and the pods
  fetched for it, the "no pods" placeholder of the namespace is in the result exactly when
  no pod was fetched, the "no control plane pods" placeholder is in the result exactly
  when pods were fetched and none of them has a component name in its name, and the
  result never holds both placeholders of one namespace.
\<close>

theorem namespace_placeholders:
  assumes fetched: "namespaces_fetched c fuel critical_namespaces w = Some fetched"
    and ns: "(ns, namespace_pods) \<in> set fetched"
  shows "\<exists>results w'.
           check_control_plane_pods c fuel w = Some (results, w')
         \<and> (no_pods_placeholder ns \<in> set results \<longleftrightarrow> namespace_pods = [])
         \<and> (no_control_plane_pods_placeholder ns \<in> set results
              \<longleftrightarrow> namespace_pods \<noteq> [] \<and> \<not> list_ex is_control_plane_pod namespace_pods)
         \<and> \<not> (no_pods_placeholder ns \<in> set results
                \<and> no_control_plane_pods_placeholder ns \<in> set results)"
proof -
  from check_control_plane_pods_returns [OF fetched] obtain results w' where
    run: "check_control_plane_pods c fuel w = Some (results, w')"
    by blast
  note res = control_plane_results [OF run fetched]
  have d: "distinct (map fst fetched)"
    using res(1) distinct_critical_namespaces by simp
  have unique: "pods = namespace_pods" if "(ns, pods) \<in> set fetched" for pods
    using d that ns by (rule eq_key_imp_eq_value)
  have mem: "e \<in> set results \<longleftrightarrow> (\<exists>(ns', pods)\<in>set fetched. e \<in> set (namespace_entries ns' pods))"
    for e
    unfolding res(2) by auto
  have a: "no_pods_placeholder ns \<in> set results \<longleftrightarrow> namespace_pods = []"
  proof
    assume "no_pods_placeholder ns \<in> set results"
    then obtain ns' pods where "(ns', pods) \<in> set fetched"
      "no_pods_placeholder ns \<in> set (namespace_entries ns' pods)"
      unfolding mem by blast
    then have "(ns, pods) \<in> set fetched" "pods = []"
      by (simp_all add: no_pods_placeholder_in_entries)
    with unique show "namespace_pods = []" by blast
  next
    assume "namespace_pods = []"
    with ns show "no_pods_placeholder ns \<in> set results"
      unfolding mem by (auto simp: no_pods_placeholder_in_entries)
  qed
  have b: "no_control_plane_pods_placeholder ns \<in> set results
           \<longleftrightarrow> namespace_pods \<noteq> [] \<and> \<not> list_ex is_control_plane_pod namespace_pods"
  proof
    assume "no_control_plane_pods_placeholder ns \<in> set results"
    then obtain ns' pods where "(ns', pods) \<in> set fetched"
      "no_control_plane_pods_placeholder ns \<in> set (namespace_entries ns' pods)"
      unfolding mem by blast
    then have "(ns, pods) \<in> set fetched" "pods \<noteq> [] \<and> \<not> list_ex is_control_plane_pod pods"
      by (simp_all add: no_control_plane_pods_placeholder_in_entries)
    with unique show "namespace_pods \<noteq> [] \<and> \<not> list_ex is_control_plane_pod namespace_pods"
      by blast
  next
    assume "namespace_pods \<noteq> [] \<and> \<not> list_ex is_control_plane_pod namespace_pods"
    with ns show "no_control_plane_pods_placeholder ns \<in> set results"
      unfolding mem by (auto simp: no_control_plane_pods_placeholder_in_entries)
  qed
  from run a b show ?thesis by blast
qed

lemma mixed_cluster_fetched:
  "namespaces_fetched mixed_cluster 0 critical_namespaces world0
   = Some [(''openshift-etcd'', [pod_unrelated]), (''openshift-apiserver'', []),
           (''openshift-kube-apiserver'', []), (''openshift-kube-controller-manager'', []),
           (''openshift-kube-scheduler'', [])]"
  by (simp add: mixed_cluster_def example_defs probe_defs)

lemma mixed_cluster_run:
  "check_control_plane_pods mixed_cluster 0 world0
   = Some ([no_control_plane_pods_placeholder ''openshift-etcd'',
            no_pods_placeholder ''openshift-apiserver'',
            no_pods_placeholder ''openshift-kube-apiserver'',
            no_pods_placeholder ''openshift-kube-controller-manager'',
            no_pods_placeholder ''openshift-kube-scheduler''],
           \<lparr>server = 5, console = [], slept = []\<rparr>)"
  by (simp add: mixed_cluster_def example_defs probe_defs)

theorem namespace_placeholders_witness:
  "map_option (\<lambda>r. no_control_plane_pods_placeholder ''openshift-etcd'' \<in> set (fst r))
     (check_control_plane_pods mixed_cluster 0 world0) = Some True
   \<and> map_option (\<lambda>r. no_pods_placeholder ''openshift-etcd'' \<in> set (fst r))
       (check_control_plane_pods mixed_cluster 0 world0) = Some False
   \<and> map_option (\<lambda>r. no_pods_placeholder ''openshift-apiserver'' \<in> set (fst r))
       (check_control_plane_pods mixed_cluster 0 world0) = Some True
   \<and> map_option (\<lambda>r. no_control_plane_pods_placeholder ''openshift-apiserver'' \<in> set (fst r))
       (check_control_plane_pods mixed_cluster 0 world0) = Some False"
proof -
  have etcd: "(''openshift-etcd'', [pod_unrelated])
              \<in> set [(''openshift-etcd'', [pod_unrelated]), (''openshift-apiserver'', []),
                     (''openshift-kube-apiserver'', []),
                     (''openshift-kube-controller-manager'', []),
                     (''openshift-kube-scheduler'', [])]"
    by simp
  have apiserver: "(''openshift-apiserver'', [])
              \<in> set [(''openshift-etcd'', [pod_unrelated]), (''openshift-apiserver'', []),
                     (''openshift-kube-apiserver'', []),
                     (''openshift-kube-controller-manager'', []),
                     (''openshift-kube-scheduler'', [])]"
    by simp
  have unrelated: "\<not> list_ex is_control_plane_pod [pod_unrelated]"
    by (simp add: is_control_plane_pod_def components_def pod_unrelated_def)
  from namespace_placeholders [OF mixed_cluster_fetched etcd] unrelated
  obtain r1 where r1: "check_control_plane_pods mixed_cluster 0 world0 = Some r1"
    "no_control_plane_pods_placeholder ''openshift-etcd'' \<in> set (fst r1)"
    "no_pods_placeholder ''openshift-etcd'' \<notin> set (fst r1)"
    by auto
  from namespace_placeholders [OF mixed_cluster_fetched apiserver]
  obtain r2 where r2: "check_control_plane_pods mixed_cluster 0 world0 = Some r2"
    "no_pods_placeholder ''openshift-apiserver'' \<in> set (fst r2)"
    "no_control_plane_pods_placeholder ''openshift-apiserver'' \<notin> set (fst r2)"
    by auto
  from r1 r2 have "r2 = r1" by simp
  with r1 r2 show ?thesis by simp
qed

section \<open>Control-plane pods: a fetch that fails\<close>



section \<open>The generic paginated call: retries\<close>

text \<open>
  Claim C2 says that a retry concerns one page only: when the request for a later page
  fails and then succeeds, the items of the earlier pages are kept and the result is
  every page exactly once. The handler starts the next attempt with the token of the
  failed page still in \<open>kwargs\<close> and with a fresh \<open>items\<close>: against a server that holds
  the pages \<open>[pod_a]\<close> and \<open>[pod_b]\<close> and fails once, on the request for the second
  page, the call returns \<open>[pod_b]\<close> alone.
\<close>

theorem retry_drops_earlier_pages:
  "serves (paged_server two_pages []) 50 None 0 [[pod_a], [pod_b]]
   \<and> map_option fst
       (get_paginated_response (paged_server two_pages [1]) (Suc 0)
          \<lparr>limit = None, continue = None\<rparr> world0)
     = Some (Inr [pod_b])"
  by (simp add: retry_defs example_defs probe_defs)








section \<open>Pagination\<close>

lemma kwargs_page_size: "limit kwargs = Some n \<Longrightarrow> kwargs\<lparr>continue := tok\<rparr> = \<lparr>limit = Some n, continue = tok\<rparr>"
  by (cases kwargs) simp

lemma response_pages_serves:
  "serves api_call 50 tok (server w) pages \<Longrightarrow> truthy tok \<Longrightarrow> length pages \<le> fuel \<Longrightarrow>
   limit kwargs = Some 50 \<Longrightarrow>
   map_option fst (response_pages api_call fuel kwargs tok its w) = Some (Inr (its @ concat pages))"
proof (induction pages arbitrary: fuel kwargs tok its w)
  case Nil
  then show ?case by simp
next
  case (Cons p ps)
  from Cons.prems(3) obtain f where fuel: "fuel = Suc f" and f: "length ps \<le> f"
    by (cases fuel) auto
  let ?k = "\<lparr>limit = Some 50, continue = tok\<rparr>"
  have k: "kwargs\<lparr>continue := tok\<rparr> = ?k"
    using Cons.prems(4) by (rule kwargs_page_size)
  from Cons.prems(1) obtain pg s' where
    call: "api_call ?k (server w) = (Returns (Some pg), s')" and
    p: "items pg = p" and
    rest: "if ps = [] then \<not> truthy (metadata_continue pg)
           else truthy (metadata_continue pg) \<and> serves api_call 50 (metadata_continue pg) s' ps"
    by (auto split: prod.splits reply.splits option.splits)
  have step: "response_pages api_call fuel kwargs tok its w
              = response_pages api_call f ?k (metadata_continue pg) (its @ p) (w\<lparr>server := s'\<rparr>)"
    using Cons.prems(2) call p by (simp add: fuel k Let_def)
  show ?case
  proof (cases "ps = []")
    case True
    with rest have "\<not> truthy (metadata_continue pg)" by simp
    then have "response_pages api_call f ?k (metadata_continue pg) (its @ p) (w\<lparr>server := s'\<rparr>)
               = Some (Inr (its @ p), ?k, w\<lparr>server := s'\<rparr>)"
      by (cases f) simp_all
    with step True show ?thesis by simp
  next
    case False
    with rest have t: "truthy (metadata_continue pg)"
      and s: "serves api_call 50 (metadata_continue pg) (server (w\<lparr>server := s'\<rparr>)) ps"
      by simp_all
    have "map_option fst (response_pages api_call f ?k (metadata_continue pg) (its @ p)
                            (w\<lparr>server := s'\<rparr>))
          = Some (Inr ((its @ p) @ concat ps))"
      by (rule Cons.IH [OF s t f]) simp
    with step show ?thesis by simp
  qed
qed

lemma response_try_serves:
  assumes s: "serves api_call 50 None (server w) pages"
    and fuel: "length pages \<le> Suc fuel"
    and k: "continue kwargs = None"
  shows "map_option fst (response_try api_call fuel kwargs w) = Some (Inr (concat pages))"
proof -
  let ?k = "\<lparr>limit = Some 50, continue = None\<rparr>"
  have k1: "kwargs\<lparr>limit := Some 50\<rparr> = ?k"
    using k by (cases kwargs) simp
  from s obtain p ps where pages: "pages = p # ps" by (cases pages) auto
  from s [unfolded pages] obtain pg s' where
    call: "api_call ?k (server w) = (Returns (Some pg), s')" and
    p: "items pg = p" and
    rest: "if ps = [] then \<not> truthy (metadata_continue pg)
           else truthy (metadata_continue pg) \<and> serves api_call 50 (metadata_continue pg) s' ps"
    by (auto split: prod.splits reply.splits option.splits)
  have step: "response_try api_call fuel kwargs w
              = response_pages api_call fuel ?k (metadata_continue pg) p (w\<lparr>server := s'\<rparr>)"
    using call p by (simp add: response_try_def k1 Let_def)
  show ?thesis
  proof (cases "ps = []")
    case True
    with rest have "\<not> truthy (metadata_continue pg)" by simp
    then have "response_pages api_call fuel ?k (metadata_continue pg) p (w\<lparr>server := s'\<rparr>)
               = Some (Inr p, ?k, w\<lparr>server := s'\<rparr>)"
      by (cases fuel) simp_all
    with step True pages show ?thesis by simp
  next
    case False
    with rest have t: "truthy (metadata_continue pg)"
      and s': "serves api_call 50 (metadata_continue pg) (server (w\<lparr>server := s'\<rparr>)) ps"
      by simp_all
    from fuel pages have f: "length ps \<le> fuel" by simp
    have "map_option fst (response_pages api_call fuel ?k (metadata_continue pg) p
                            (w\<lparr>server := s'\<rparr>))
          = Some (Inr (p @ concat ps))"
      by (rule response_pages_serves [OF s' t f]) simp
    with step pages show ?thesis by simp
  qed
qed

lemma get_paginated_response_serves:
  assumes s: "serves api_call 50 None (server w) pages"
    and fuel: "length pages \<le> Suc fuel"
    and k: "continue kwargs = None"
  shows "map_option fst (get_paginated_response api_call fuel kwargs w)
         = Some (Inr (concat pages))"
proof -
  from response_try_serves [OF s fuel k] obtain kwargs1 w1 where
    "response_try api_call fuel kwargs w = Some (Inr (concat pages), kwargs1, w1)"
    by (cases "response_try api_call fuel kwargs w") auto
  then show ?thesis
    by (simp add: get_paginated_response_def response_retry.simps [of _ _ 0] max_retries_def)
qed


lemma pods_pages_serves:
  "serves (list_namespaced_pod c ns sel) 100 tok (server w) pages \<Longrightarrow> truthy tok \<Longrightarrow>
   length pages \<le> fuel \<Longrightarrow> \<forall>p\<in>set (butlast pages). p \<noteq> [] \<Longrightarrow>
   map_option fst (pods_pages c fuel ns sel tok pods w) = Some (Inr (pods @ concat pages))"
proof (induction pages arbitrary: fuel tok pods w)
  case Nil
  then show ?case by simp
next
  case (Cons p ps)
  from Cons.prems(3) obtain f where fuel: "fuel = Suc f" and f: "length ps \<le> f"
    by (cases fuel) auto
  let ?k = "\<lparr>limit = Some 100, continue = tok\<rparr>"
  from Cons.prems(1) obtain pg s' where
    call: "list_namespaced_pod c ns sel ?k (server w) = (Returns (Some pg), s')" and
    p: "items pg = p" and
    rest: "if ps = [] then \<not> truthy (metadata_continue pg)
           else truthy (metadata_continue pg)
                \<and> serves (list_namespaced_pod c ns sel) 100 (metadata_continue pg) s' ps"
    by (auto split: prod.splits reply.splits option.splits)
  show ?case
  proof (cases "ps = []")
    case True
    with rest have nt: "\<not> truthy (metadata_continue pg)" by simp
    then have "pods_pages c f ns sel (metadata_continue pg) (pods @ p) (w\<lparr>server := s'\<rparr>)
               = Some (Inr (pods @ p), w\<lparr>server := s'\<rparr>)"
      by (cases f) simp_all
    then have "map_option fst (pods_pages c fuel ns sel tok pods w) = Some (Inr (pods @ p))"
      using Cons.prems(2) call p by (cases "p = []") (simp_all add: fuel)
    with True show ?thesis by simp
  next
    case False
    with Cons.prems(4) have ne: "p \<noteq> []" and nes: "\<forall>q\<in>set (butlast ps). q \<noteq> []"
      by simp_all
    have step: "pods_pages c fuel ns sel tok pods w
                = pods_pages c f ns sel (metadata_continue pg) (pods @ p) (w\<lparr>server := s'\<rparr>)"
      using Cons.prems(2) call p ne by (simp add: fuel)
    from False rest have t: "truthy (metadata_continue pg)"
      and s: "serves (list_namespaced_pod c ns sel) 100 (metadata_continue pg)
                (server (w\<lparr>server := s'\<rparr>)) ps"
      by simp_all
    have "map_option fst (pods_pages c f ns sel (metadata_continue pg) (pods @ p)
                            (w\<lparr>server := s'\<rparr>))
          = Some (Inr ((pods @ p) @ concat ps))"
      by (rule Cons.IH [OF s t f nes])
    with step show ?thesis by simp
  qed
qed

lemma pods_try_serves:
  assumes s: "serves (list_namespaced_pod c ns sel) 100 None (server w) pages"
    and fuel: "length pages \<le> Suc fuel"
    and later: "\<forall>p\<in>set (butlast (tl pages)). p \<noteq> []"
  shows "map_option fst (pods_try c fuel ns sel w) = Some (Inr (concat pages))"
proof -
  let ?k = "\<lparr>limit = Some 100, continue = None\<rparr>"
  from s obtain p ps where pages: "pages = p # ps" by (cases pages) auto
  from s [unfolded pages] obtain pg s' where
    call: "list_namespaced_pod c ns sel ?k (server w) = (Returns (Some pg), s')" and
    p: "items pg = p" and
    rest: "if ps = [] then \<not> truthy (metadata_continue pg)
           else truthy (metadata_continue pg)
                \<and> serves (list_namespaced_pod c ns sel) 100 (metadata_continue pg) s' ps"
    by (auto split: prod.splits reply.splits option.splits)
  have step: "pods_try c fuel ns sel w
              = pods_pages c fuel ns sel (metadata_continue pg) p (w\<lparr>server := s'\<rparr>)"
    using call p by (simp add: pods_try_def)
  show ?thesis
  proof (cases "ps = []")
    case True
    with rest have "\<not> truthy (metadata_continue pg)" by simp
    then have "pods_pages c fuel ns sel (metadata_continue pg) p (w\<lparr>server := s'\<rparr>)
               = Some (Inr p, w\<lparr>server := s'\<rparr>)"
      by (cases fuel) simp_all
    with step True pages show ?thesis by simp
  next
    case False
    with rest have t: "truthy (metadata_continue pg)"
      and s': "serves (list_namespaced_pod c ns sel) 100 (metadata_continue pg)
                 (server (w\<lparr>server := s'\<rparr>)) ps"
      by simp_all
    from fuel pages have f: "length ps \<le> fuel" by simp
    from later pages have nes: "\<forall>q\<in>set (butlast ps). q \<noteq> []" by simp
    have "map_option fst (pods_pages c fuel ns sel (metadata_continue pg) p (w\<lparr>server := s'\<rparr>))
          = Some (Inr (p @ concat ps))"
      by (rule pods_pages_serves [OF s' t f nes])
    with step pages show ?thesis by simp
  qed
qed

lemma get_paginated_pods_serves:
  assumes s: "serves (list_namespaced_pod c ns sel) 100 None (server w) pages"
    and fuel: "length pages \<le> Suc fuel"
    and later: "\<forall>p\<in>set (butlast (tl pages)). p \<noteq> []"
  shows "map_option fst (get_paginated_pods c fuel ns sel w) = Some (concat pages)"
proof -
  from pods_try_serves [OF s fuel later] obtain w1 where
    "pods_try c fuel ns sel w = Some (Inr (concat pages), w1)"
    by (cases "pods_try c fuel ns sel w") auto
  then show ?thesis by (simp add: get_paginated_pods_def)
qed

text \<open>
  Claim C6 says that both fetchers return the concatenation of all pages of any valid
  chain of pages. The loop of \<open>_get_paginated_pods\<close> ends at the first later page without
  items, whatever its token: of the pages \<open>[pod_a]\<close>, \<open>[]\<close>, \<open>[pod_b]\<close> it returns
  \<open>[pod_a]\<close>.
\<close>

theorem empty_page_ends_pod_fetch:
  "serves (paged_server empty_middle_page []) 100 None 0 [[pod_a], [], [pod_b]]
   \<and> map_option fst
       (get_paginated_pods
          (example_cluster (Inr []) (Inr []) (\<lambda>ns. paged_server empty_middle_page []))
          (Suc (Suc (Suc 0))) ''openshift-etcd'' None world0)
     = Some [pod_a]
   \<and> [pod_a] \<noteq> concat [[pod_a], [], [pod_b]]"
  by (simp add: example_defs probe_defs)

text \<open>
  Claim C6 as amended: when the server answers with a valid chain of pages whose last
  token is empty or absent, and there is fuel for the number of pages, the generic
  paginated call (page size 50, no token in the caller's \<open>kwargs\<close>) returns the
  concatenation of all pages in order; \<open>_get_paginated_pods\<close> (page size 100) returns
  the concatenation of all pages in order provided that no page between the first and the
  last is empty. A single empty page gives the empty list in both.
\<close>

theorem fetch_concatenates_pages:
  "(serves api_call 50 None (server w) pages \<and> length pages \<le> Suc fuel
      \<and> continue kwargs = None
    \<longrightarrow> map_option fst (get_paginated_response api_call fuel kwargs w)
        = Some (Inr (concat pages)))
   \<and> (serves (list_namespaced_pod c ns sel) 100 None (server v) pod_pages
        \<and> length pod_pages \<le> Suc fuel' \<and> (\<forall>p\<in>set (butlast (tl pod_pages)). p \<noteq> [])
      \<longrightarrow> map_option fst (get_paginated_pods c fuel' ns sel v) = Some (concat pod_pages))"
proof (intro conjI impI)
  assume "serves api_call 50 None (server w) pages \<and> length pages \<le> Suc fuel
          \<and> continue kwargs = None"
  then show "map_option fst (get_paginated_response api_call fuel kwargs w)
             = Some (Inr (concat pages))"
    by (intro get_paginated_response_serves) simp_all
next
  assume "serves (list_namespaced_pod c ns sel) 100 None (server v) pod_pages
          \<and> length pod_pages \<le> Suc fuel' \<and> (\<forall>p\<in>set (butlast (tl pod_pages)). p \<noteq> [])"
  then show "map_option fst (get_paginated_pods c fuel' ns sel v) = Some (concat pod_pages)"
    by (intro get_paginated_pods_serves) simp_all
qed

theorem fetch_concatenates_pages_witness:
  "map_option fst
     (get_paginated_response (paged_server two_pages []) (Suc 0)
        \<lparr>limit = None, continue = None\<rparr> world0)
   = Some (Inr [pod_a, pod_b])
   \<and> map_option fst (get_paginated_pods two_page_cluster (Suc 0) ''openshift-etcd'' None world0)
     = Some [pod_a, pod_b]
   \<and> map_option fst
       (get_paginated_response
          (paged_server [(None, \<lparr>items = [] :: pod list, metadata_continue = None\<rparr>)] []) 0
          \<lparr>limit = None, continue = None\<rparr> world0)
     = Some (Inr [])
   \<and> map_option fst (get_paginated_pods etcd_without_pods 0 ''openshift-etcd'' None world0)
     = Some []"
proof -
  have r2: "serves (paged_server two_pages []) 50 None (server world0) [[pod_a], [pod_b]]"
    by (simp add: example_defs)
  have p2: "serves (list_namespaced_pod two_page_cluster ''openshift-etcd'' None) 100 None
              (server world0) [[pod_a], [pod_b]]"
    by (simp add: two_page_cluster_def example_defs)
  have r0: "serves (paged_server [(None, \<lparr>items = [] :: pod list, metadata_continue = None\<rparr>)] [])
              50 None (server world0) [[]]"
    by (simp add: example_defs)
  have p0: "serves (list_namespaced_pod etcd_without_pods ''openshift-etcd'' None) 100 None
              (server world0) [[]]"
    by (simp add: etcd_without_pods_def example_defs)
  from fetch_concatenates_pages
         [of "paged_server two_pages []" world0 "[[pod_a], [pod_b]]" "Suc 0"
             "\<lparr>limit = None, continue = None\<rparr>" two_page_cluster "''openshift-etcd''" None
             world0 "[[pod_a], [pod_b]]" "Suc 0"]
       fetch_concatenates_pages
         [of "paged_server [(None, \<lparr>items = [] :: pod list, metadata_continue = None\<rparr>)] []"
             world0 "[[]]" 0 "\<lparr>limit = None, continue = None\<rparr>" etcd_without_pods
             "''openshift-etcd''" None world0 "[[]]" 0]
       r2 p2 r0 p0
  show ?thesis by simp
qed

end
